theory Spec2Isabelle
  imports Main
begin

section \<open>Python values, dictionaries and errors\<close>

text \<open>
  The values that occur in a task dictionary (and in the JSON configuration file):
  strings, integers and booleans. A Python \<open>dict\<close> is an association list in
  insertion order; a key occurs once, and lookup takes the entry of the key.
\<close>

datatype pyval = VStr string | VInt int | VBool bool

type_synonym pydict = "(string \<times> pyval) list"

text \<open>
  The exceptions of the modelled code. \<open>TypeError\<close> is what calling the dataclass
  constructor with a missing or an unexpected keyword raises, \<open>ValueError\<close> what
  \<open>int()\<close> and the five-field check of \<open>schedule_task\<close> raise, \<open>RuntimeError\<close> what
  releasing an unlocked \<open>threading.Lock\<close> raises, and \<open>TriggerError\<close> stands for
  whatever the \<open>CronTrigger\<close> constructor raises. \<open>IllTyped\<close> is not a Python
  exception: Python stores a value of any type in a dataclass field, and such an object
  has no counterpart in the typed record below.
\<close>

datatype error = TypeError | ValueError | RuntimeError | TriggerError | IllTyped

section \<open>ScreenshotTask\<close>

record ScreenshotTask =
  id_task :: string
  url :: string
  cron_schedule :: string
  output_path :: string
  width :: int
  height :: int
  full_page :: bool
  enabled :: bool

definition field_names :: "string list" where
  "field_names = [''id'', ''url'', ''cron_schedule'', ''output_path'',
                  ''width'', ''height'', ''full_page'', ''enabled'']"

text \<open>\<open>to_dict\<close> is \<open>dataclasses.asdict\<close>: one entry per field, in declaration order.\<close>

definition to_dict :: "ScreenshotTask \<Rightarrow> pydict" where
  "to_dict t =
     [(''id'', VStr (id_task t)), (''url'', VStr (url t)),
      (''cron_schedule'', VStr (cron_schedule t)), (''output_path'', VStr (output_path t)),
      (''width'', VInt (width t)), (''height'', VInt (height t)),
      (''full_page'', VBool (full_page t)), (''enabled'', VBool (enabled t))]"

text \<open>Reading one keyword argument: required ones have no default.\<close>

definition str_arg :: "pydict \<Rightarrow> string \<Rightarrow> error + string" where
  "str_arg d k = (case map_of d k of
                    None \<Rightarrow> Inl TypeError
                  | Some (VStr s) \<Rightarrow> Inr s
                  | Some _ \<Rightarrow> Inl IllTyped)"

definition int_arg :: "pydict \<Rightarrow> string \<Rightarrow> int \<Rightarrow> error + int" where
  "int_arg d k dflt = (case map_of d k of
                         None \<Rightarrow> Inr dflt
                       | Some (VInt i) \<Rightarrow> Inr i
                       | Some _ \<Rightarrow> Inl IllTyped)"

definition bool_arg :: "pydict \<Rightarrow> string \<Rightarrow> bool \<Rightarrow> error + bool" where
  "bool_arg d k dflt = (case map_of d k of
                          None \<Rightarrow> Inr dflt
                        | Some (VBool b) \<Rightarrow> Inr b
                        | Some _ \<Rightarrow> Inl IllTyped)"

text \<open>
  \<open>from_dict\<close> is \<open>cls(**data)\<close>: a key that is no field name raises, a missing
  required field raises, a missing optional field takes its default
  (1920, 1080, True, True).
\<close>

definition then_do :: "error + 'a \<Rightarrow> ('a \<Rightarrow> error + 'b) \<Rightarrow> error + 'b" where
  "then_do r f = (case r of Inl e \<Rightarrow> Inl e | Inr x \<Rightarrow> f x)"

definition from_dict :: "pydict \<Rightarrow> error + ScreenshotTask" where
  "from_dict d =
     (if \<not> list_all (\<lambda>k. k \<in> set field_names) (map fst d) then Inl TypeError
      else
        then_do (str_arg d ''id'') (\<lambda>i.
        then_do (str_arg d ''url'') (\<lambda>u.
        then_do (str_arg d ''cron_schedule'') (\<lambda>c.
        then_do (str_arg d ''output_path'') (\<lambda>p.
        then_do (int_arg d ''width'' 1920) (\<lambda>w.
        then_do (int_arg d ''height'' 1080) (\<lambda>h.
        then_do (bool_arg d ''full_page'' True) (\<lambda>f.
        then_do (bool_arg d ''enabled'' True) (\<lambda>en.
          Inr \<lparr>id_task = i, url = u, cron_schedule = c, output_path = p,
               width = w, height = h, full_page = f, enabled = en\<rparr>)))))))))"

section \<open>ConfigManager: the stored task list\<close>

text \<open>
  Of the configuration dictionary only the entry \<open>"tasks"\<close> matters here: a list of
  task dictionaries, or no entry at all (\<open>config.get("tasks", [])\<close> then reads the
  empty list). Writing the file (\<open>save_config\<close>) does not change the dictionary.
\<close>

record config =
  tasks :: "pydict list option"

fun from_dicts :: "pydict list \<Rightarrow> error + ScreenshotTask list" where
  "from_dicts [] = Inr []"
| "from_dicts (d # ds) =
     then_do (from_dict d) (\<lambda>t. then_do (from_dicts ds) (\<lambda>ts. Inr (t # ts)))"

definition get_tasks :: "config \<Rightarrow> error + ScreenshotTask list" where
  "get_tasks cfg = from_dicts (case tasks cfg of None \<Rightarrow> [] | Some ds \<Rightarrow> ds)"

definition store_tasks :: "config \<Rightarrow> ScreenshotTask list \<Rightarrow> config" where
  "store_tasks cfg ts = cfg\<lparr>tasks := Some (map to_dict ts)\<rparr>"

definition ConfigManager_add_task :: "config \<Rightarrow> ScreenshotTask \<Rightarrow> error + config" where
  "ConfigManager_add_task cfg task =
     then_do (get_tasks cfg) (\<lambda>ts. Inr (store_tasks cfg (ts @ [task])))"

definition ConfigManager_remove_task :: "config \<Rightarrow> string \<Rightarrow> error + config" where
  "ConfigManager_remove_task cfg task_id =
     then_do (get_tasks cfg)
       (\<lambda>ts. Inr (store_tasks cfg (filter (\<lambda>t. id_task t \<noteq> task_id) ts)))"

text \<open>The loop of \<open>update_task\<close>: the first task with the id is replaced, then \<open>break\<close>.\<close>

fun replace_first :: "ScreenshotTask \<Rightarrow> ScreenshotTask list \<Rightarrow> ScreenshotTask list" where
  "replace_first task [] = []"
| "replace_first task (t # ts) =
     (if id_task t = id_task task then task # ts else t # replace_first task ts)"

definition update_task :: "config \<Rightarrow> ScreenshotTask \<Rightarrow> error + config" where
  "update_task cfg task =
     then_do (get_tasks cfg) (\<lambda>ts. Inr (store_tasks cfg (replace_first task ts)))"

section \<open>Strings: whitespace, split, strip, int() and str()\<close>

text \<open>
  Strings are byte strings of ASCII text. Whitespace for \<open>str.split()\<close> and
  \<open>str.strip()\<close> is, among the ASCII characters, the codes 9 to 13 and 28 to 32.
  Whitespace and digits beyond ASCII are outside this model.
\<close>

definition is_space :: "char \<Rightarrow> bool" where
  "is_space c = (let n = (of_char c :: nat) in (9 \<le> n \<and> n \<le> 13) \<or> (28 \<le> n \<and> n \<le> 32))"

definition is_digit :: "char \<Rightarrow> bool" where
  "is_digit c = (let n = (of_char c :: nat) in 48 \<le> n \<and> n \<le> 57)"

definition digit_val :: "char \<Rightarrow> nat" where
  "digit_val c = of_char c - 48"

definition digit_char :: "nat \<Rightarrow> char" where
  "digit_char n = char_of (48 + n)"

text \<open>\<open>s.split()\<close>: the maximal runs of non-whitespace, \<open>w\<close> being the run read so far.\<close>

fun split_acc :: "string \<Rightarrow> string \<Rightarrow> string list" where
  "split_acc w [] = (if w = [] then [] else [w])"
| "split_acc w (c # cs) =
     (if is_space c then (if w = [] then split_acc [] cs else w # split_acc [] cs)
      else split_acc (w @ [c]) cs)"

definition py_split :: "string \<Rightarrow> string list" where
  "py_split s = split_acc [] s"

definition py_strip :: "string \<Rightarrow> string" where
  "py_strip s = rev (dropWhile is_space (rev (dropWhile is_space s)))"

text \<open>
  \<open>int(s)\<close> in base 10: surrounding whitespace, an optional sign, then digits, where
  single underscores may stand between digits. Anything else raises \<open>ValueError\<close>.
  For an ASCII string the whitespace \<open>int()\<close> skips is narrower than that of
  \<open>split\<close> and \<open>strip\<close>: the codes 9 to 13 and 32 only. A string of more than
  4300 digits raises \<open>ValueError\<close> as well (the default limit on the conversion).
\<close>

definition is_int_space :: "char \<Rightarrow> bool" where
  "is_int_space c = (let n = (of_char c :: nat) in (9 \<le> n \<and> n \<le> 13) \<or> n = 32)"

definition int_strip :: "string \<Rightarrow> string" where
  "int_strip s = rev (dropWhile is_int_space (rev (dropWhile is_int_space s)))"

fun digits_value :: "nat \<Rightarrow> string \<Rightarrow> nat option" where
  "digits_value acc [] = Some acc"
| "digits_value acc (c # cs) =
     (if is_digit c then digits_value (acc * 10 + digit_val c) cs
      else if c = CHR ''_'' then
        (case cs of [] \<Rightarrow> None | d # ds \<Rightarrow> if is_digit d then digits_value acc cs else None)
      else None)"

definition parse_digits :: "string \<Rightarrow> nat option" where
  "parse_digits s = (case s of [] \<Rightarrow> None
                     | c # cs \<Rightarrow>
                         if is_digit c \<and> length (filter is_digit s) \<le> 4300
                         then digits_value 0 s else None)"

definition py_int :: "string \<Rightarrow> error + int" where
  "py_int s =
     (case int_strip s of
        [] \<Rightarrow> Inl ValueError
      | c # cs \<Rightarrow>
          (case (if c = CHR ''-'' then map_option (\<lambda>n. - int n) (parse_digits cs)
                 else if c = CHR ''+'' then map_option int (parse_digits cs)
                 else map_option int (parse_digits (c # cs))) of
             None \<Rightarrow> Inl ValueError
           | Some i \<Rightarrow> Inr i))"

text \<open>\<open>str(i)\<close>, as an f-string formats an integer: decimal, no leading zeros.\<close>

fun str_nat :: "nat \<Rightarrow> string" where
  "str_nat n = (if n < 10 then [digit_char n]
                else str_nat (n div 10) @ [digit_char (n mod 10)])"

definition py_str :: "int \<Rightarrow> string" where
  "py_str i = (if i < 0 then CHR ''-'' # str_nat (nat (- i)) else str_nat (nat i))"

section \<open>The schedule chosen in the task form\<close>

text \<open>What \<open>add_task\<close> reads from the widgets of the form.\<close>

record ui =
  url_entry :: string
  schedule_option :: string
  hour_spinbox :: string
  minute_spinbox :: string
  width_entry :: string
  height_entry :: string
  output_path_entry :: string
  full_page_var :: bool

definition get_cron_schedule :: "ui \<Rightarrow> string" where
  "get_cron_schedule u =
     (let option = schedule_option u in
      if option = ''Every Minute'' then ''* * * * *''
      else if option = ''Every Hour'' then ''0 * * * *''
      else if option = ''Daily'' then ''0 0 * * *''
      else if option = ''Weekly'' then ''0 0 * * 0''
      else if option = ''Custom'' then
        (case py_int (hour_spinbox u) of
           Inl e \<Rightarrow> ''Invalid''
         | Inr h \<Rightarrow>
             (case py_int (minute_spinbox u) of
                Inl e \<Rightarrow> ''Invalid''
              | Inr m \<Rightarrow> py_str (m mod 60) @ '' '' @ py_str (h mod 24) @ '' * * *''))
      else ''0 * * * *'')"

section \<open>Cron expressions as the specification describes them\<close>

text \<open>
  Modelled from the spec: the parser \<open>Parse\<close> of a cron expression is not in the
  source, which hands the five tokens to the \<open>CronTrigger\<close> constructor of the
  APScheduler library. The specification's grammar: exactly five whitespace-separated
  tokens, each \<open>*\<close> or a base-10 integer in the range of its field (minute 0-59,
  hour 0-23, day of month 1-31, month 1-12, day of week 0-6).
\<close>

datatype cron_field = Any | Exactly nat

record CronSpec =
  cs_minute :: cron_field
  cs_hour :: cron_field
  cs_day :: cron_field
  cs_month :: cron_field
  cs_day_of_week :: cron_field

fun dec_digits :: "nat \<Rightarrow> string \<Rightarrow> nat option" where
  "dec_digits acc [] = Some acc"
| "dec_digits acc (c # cs) =
     (if is_digit c then dec_digits (acc * 10 + digit_val c) cs else None)"

definition dec_number :: "string \<Rightarrow> nat option" where
  "dec_number s = (if s = [] then None else dec_digits 0 s)"

definition parse_field :: "nat \<Rightarrow> nat \<Rightarrow> string \<Rightarrow> cron_field option" where
  "parse_field lo hi tok =
     (if tok = ''*'' then Some Any
      else case dec_number tok of
             None \<Rightarrow> None
           | Some v \<Rightarrow> if lo \<le> v \<and> v \<le> hi then Some (Exactly v) else None)"

definition field_ok :: "nat \<Rightarrow> nat \<Rightarrow> string \<Rightarrow> bool" where
  "field_ok lo hi tok = (parse_field lo hi tok \<noteq> None)"

text \<open>
  Modelled from the spec: the five fields as keyword arguments, in the order in which
  \<open>schedule_task\<close> passes them to \<open>CronTrigger\<close>; a field outside the grammar raises.
\<close>

definition CronTrigger_spec ::
  "string \<Rightarrow> string \<Rightarrow> string \<Rightarrow> string \<Rightarrow> string \<Rightarrow> error + CronSpec" where
  "CronTrigger_spec minute hour day month day_of_week =
     (case (parse_field 0 59 minute, parse_field 0 23 hour, parse_field 1 31 day,
            parse_field 1 12 month, parse_field 0 6 day_of_week) of
        (Some mi, Some h, Some d, Some mo, Some dw) \<Rightarrow>
          Inr \<lparr>cs_minute = mi, cs_hour = h, cs_day = d, cs_month = mo, cs_day_of_week = dw\<rparr>
      | _ \<Rightarrow> Inl TriggerError)"

definition well_formed_cron :: "string \<Rightarrow> bool" where
  "well_formed_cron s =
     (case py_split s of
        [minute, hour, day, month, day_of_week] \<Rightarrow>
          field_ok 0 59 minute \<and> field_ok 0 23 hour \<and> field_ok 1 31 day \<and>
          field_ok 1 12 month \<and> field_ok 0 6 day_of_week
      | _ \<Rightarrow> False)"

section \<open>The scheduler's jobs and the application\<close>

text \<open>
  The jobs of the \<open>BackgroundScheduler\<close>, by job id. \<open>add_job\<close> with
  \<open>replace_existing=True\<close> stores the job under its id, replacing a job of that id.
  A job keeps the task its \<open>capture_wrapper\<close> closed over, and its trigger.
  The trigger constructor is a parameter \<open>C\<close> of the functions below (the library is
  not part of the source); \<open>CronTrigger_spec\<close> is one instance.
\<close>

record 'tr job =
  job_task :: ScreenshotTask
  job_trigger :: 'tr

text \<open>The line \<open>schedule_task\<close> prints: it returns nothing and raises nothing.\<close>

datatype printed = Scheduled_task string string | Failed_to_schedule error

record 'tr app =
  config_manager :: config
  scheduler :: "string \<rightharpoonup> 'tr job"
  console :: "printed list"

definition schedule_task ::
  "(string \<Rightarrow> string \<Rightarrow> string \<Rightarrow> string \<Rightarrow> string \<Rightarrow> error + 'tr) \<Rightarrow>
   ScreenshotTask \<Rightarrow> 'tr app \<Rightarrow> 'tr app" where
  "schedule_task C task a =
     (case py_split (cron_schedule task) of
        [minute, hour, day, month, day_of_week] \<Rightarrow>
          (case C minute hour day month day_of_week of
             Inl e \<Rightarrow> a\<lparr>console := console a @ [Failed_to_schedule e]\<rparr>
           | Inr tr \<Rightarrow>
               a\<lparr>scheduler := (scheduler a)(id_task task \<mapsto> \<lparr>job_task = task, job_trigger = tr\<rparr>),
                 console := console a @ [Scheduled_task (url task) (cron_schedule task)]\<rparr>)
      | _ \<Rightarrow> a\<lparr>console := console a @ [Failed_to_schedule ValueError]\<rparr>)"

fun schedule_enabled ::
  "(string \<Rightarrow> string \<Rightarrow> string \<Rightarrow> string \<Rightarrow> string \<Rightarrow> error + 'tr) \<Rightarrow>
   ScreenshotTask list \<Rightarrow> 'tr app \<Rightarrow> 'tr app" where
  "schedule_enabled C [] a = a"
| "schedule_enabled C (task # ts) a =
     schedule_enabled C ts (if enabled task then schedule_task C task a else a)"

definition load_scheduled_tasks ::
  "(string \<Rightarrow> string \<Rightarrow> string \<Rightarrow> string \<Rightarrow> string \<Rightarrow> error + 'tr) \<Rightarrow>
   'tr app \<Rightarrow> error + 'tr app" where
  "load_scheduled_tasks C a =
     then_do (get_tasks (config_manager a)) (\<lambda>ts. Inr (schedule_enabled C ts a))"

datatype dialog = Show_error | Show_success

text \<open>
  \<open>App.add_task\<close>. Besides the form it reads a fresh \<open>uuid4\<close> and the default
  output directory under the home directory.
\<close>

definition App_add_task ::
  "(string \<Rightarrow> string \<Rightarrow> string \<Rightarrow> string \<Rightarrow> string \<Rightarrow> error + 'tr) \<Rightarrow>
   ui \<Rightarrow> string \<Rightarrow> string \<Rightarrow> 'tr app \<Rightarrow> error + ('tr app \<times> dialog)" where
  "App_add_task C u uuid4 default_dir a =
     (let url_v = py_strip (url_entry u); cron = get_cron_schedule u in
      then_do (py_int (width_entry u)) (\<lambda>w.
      then_do (py_int (height_entry u)) (\<lambda>h.
        if url_v = [] \<or> cron = ''Invalid'' then Inr (a, Show_error)
        else
          let out = (if output_path_entry u = [] then default_dir else output_path_entry u);
              task = \<lparr>id_task = uuid4, url = url_v, cron_schedule = cron, output_path = out,
                      width = w, height = h, full_page = full_page_var u, enabled = True\<rparr>
          in then_do (ConfigManager_add_task (config_manager a) task) (\<lambda>c.
             then_do (load_scheduled_tasks C (a\<lparr>config_manager := c\<rparr>)) (\<lambda>a'.
               Inr (a', Show_success))))))"

definition App_remove_task ::
  "(string \<Rightarrow> string \<Rightarrow> string \<Rightarrow> string \<Rightarrow> string \<Rightarrow> error + 'tr) \<Rightarrow>
   string \<Rightarrow> 'tr app \<Rightarrow> error + ('tr app \<times> dialog)" where
  "App_remove_task C task_id a =
     then_do (ConfigManager_remove_task (config_manager a) task_id) (\<lambda>c.
     then_do (load_scheduled_tasks C (a\<lparr>config_manager := c\<rparr>)) (\<lambda>a'.
       Inr (a', Show_success)))"

text \<open>The scheduler dispatches the jobs it holds: a task id is dispatched while it has a job.\<close>

definition dispatched :: "'tr app \<Rightarrow> string \<Rightarrow> bool" where
  "dispatched a task_id = (scheduler a task_id \<noteq> None)"

section \<open>The capture lock and the capture threads\<close>

text \<open>
  \<open>ScreenshotCapture.__init__\<close> creates one \<open>threading.Lock\<close>, and the application
  creates one \<open>ScreenshotCapture\<close>: every capture, of every task, uses this lock.
  \<open>True\<close> is locked. \<open>acquire(blocking=False)\<close> is atomic and returns whether it took
  the lock; \<open>release()\<close> of an unlocked lock raises \<open>RuntimeError\<close>.
\<close>

type_synonym lock = bool

definition acquire_nonblocking :: "lock \<Rightarrow> bool \<times> lock" where
  "acquire_nonblocking l = (if l then (False, l) else (True, True))"

definition release :: "lock \<Rightarrow> error + lock" where
  "release l = (if l then Inr False else Inl RuntimeError)"

text \<open>How \<open>capture_task\<close> ends: the capture succeeded, failed, or an exception escaped.\<close>

datatype completion = Succeeded | Failed | Raised

text \<open>
  The body shared by \<open>capture_wrapper\<close> (scheduled) and \<open>capture\<close> (manual), run
  without interruption: the lock afterwards and what happened. The action is
  \<open>capture_task\<close>, a method of the application object: it can see the lock it runs
  under and never changes it, so how it ends is a function \<open>action\<close> of that lock.
  It runs after the acquire and before the release of the \<open>finally\<close> block.
\<close>

datatype run_result = Skipped | Ran completion | Release_raised

definition capture_body :: "(lock \<Rightarrow> completion) \<Rightarrow> lock \<Rightarrow> lock \<times> run_result" where
  "capture_body action l =
     (case acquire_nonblocking l of
        (False, l') \<Rightarrow> (l', Skipped)
      | (True, l') \<Rightarrow>
          (let c = action l' in
           case release l' of
             Inr l'' \<Rightarrow> (l'', Ran c)
           | Inl e \<Rightarrow> (l', Release_raised)))"

text \<open>
  The same body as a thread among others. Its atomic steps are the acquire attempt and,
  when the action has ended, the release in the \<open>finally\<close> block; between the two the
  thread is \<open>Holding\<close>. An interleaving is a list of thread indices: who steps next.
\<close>

datatype origin = Manual | Scheduled

datatype pc = Ready | Holding | Skipped_pc | Finished completion | Crashed

record thread =
  th_origin :: origin
  th_task :: string
  th_end :: completion
  th_pc :: pc

record world =
  capture_lock :: lock
  threads :: "thread list"

definition step :: "nat \<Rightarrow> world \<Rightarrow> world" where
  "step i w =
     (if length (threads w) \<le> i then w
      else
        let t = threads w ! i in
        case th_pc t of
          Ready \<Rightarrow>
            (case acquire_nonblocking (capture_lock w) of
               (True, l') \<Rightarrow>
                 \<lparr>capture_lock = l', threads = (threads w)[i := t\<lparr>th_pc := Holding\<rparr>]\<rparr>
             | (False, l') \<Rightarrow>
                 \<lparr>capture_lock = l', threads = (threads w)[i := t\<lparr>th_pc := Skipped_pc\<rparr>]\<rparr>)
        | Holding \<Rightarrow>
            (case release (capture_lock w) of
               Inr l' \<Rightarrow>
                 \<lparr>capture_lock = l',
                  threads = (threads w)[i := t\<lparr>th_pc := Finished (th_end t)\<rparr>]\<rparr>
             | Inl e \<Rightarrow>
                 \<lparr>capture_lock = capture_lock w,
                  threads = (threads w)[i := t\<lparr>th_pc := Crashed\<rparr>]\<rparr>)
        | _ \<Rightarrow> w)"

definition run :: "nat list \<Rightarrow> world \<Rightarrow> world" where
  "run sched w = fold step sched w"

text \<open>What a thread that ran to its end reports, as the state of the thread.\<close>

fun pc_of_result :: "run_result \<Rightarrow> pc" where
  "pc_of_result Skipped = Skipped_pc"
| "pc_of_result (Ran c) = Finished c"
| "pc_of_result Release_raised = Crashed"

text \<open>The guard a capture of a task uses: the one lock, whatever the task.\<close>

definition guard_of :: "world \<Rightarrow> string \<Rightarrow> lock" where
  "guard_of w task_id = capture_lock w"

definition holders :: "world \<Rightarrow> nat" where
  "holders w = length (filter (\<lambda>t. th_pc t = Holding) (threads w))"

definition attempt :: "origin \<Rightarrow> string \<Rightarrow> completion \<Rightarrow> thread" where
  "attempt orig task_id c = \<lparr>th_origin = orig, th_task = task_id, th_end = c, th_pc = Ready\<rparr>"

text \<open>
  The states the application can be in: a thread that holds has the lock locked, at most
  one holds, and none has crashed in its release.
\<close>

definition consistent :: "world \<Rightarrow> bool" where
  "consistent w =
     (holders w \<le> 1 \<and> (holders w = 1 \<longrightarrow> capture_lock w) \<and>
      list_all (\<lambda>t. th_pc t \<noteq> Crashed) (threads w))"

section \<open>Example data\<close>

definition task_a :: ScreenshotTask where
  "task_a = \<lparr>id_task = ''a'', url = ''http://a.example'', cron_schedule = ''0 * * * *'',
              output_path = ''shots'', width = 1920, height = 1080, full_page = True,
              enabled = True\<rparr>"

definition task_a2 :: ScreenshotTask where
  "task_a2 = \<lparr>id_task = ''a'', url = ''http://a2.example'', cron_schedule = ''0 0 * * *'',
               output_path = ''shots'', width = 1920, height = 1080, full_page = True,
               enabled = True\<rparr>"

definition task_b :: ScreenshotTask where
  "task_b = \<lparr>id_task = ''b'', url = ''http://b.example'', cron_schedule = ''30 14 * * *'',
              output_path = ''shots'', width = 800, height = 600, full_page = False,
              enabled = True\<rparr>"

definition empty_config :: config where
  "empty_config = \<lparr>tasks = None\<rparr>"

definition app_with :: "ScreenshotTask list \<Rightarrow> CronSpec app" where
  "app_with ts = \<lparr>config_manager = store_tasks empty_config ts, scheduler = Map.empty,
                   console = []\<rparr>"

definition task_short :: ScreenshotTask where
  "task_short = \<lparr>id_task = ''short'', url = ''http://s.example'', cron_schedule = ''0 0 * *'',
                  output_path = ''shots'', width = 1920, height = 1080, full_page = True,
                  enabled = True\<rparr>"

definition task_feb31 :: ScreenshotTask where
  "task_feb31 = \<lparr>id_task = ''feb31'', url = ''http://f.example'',
                  cron_schedule = ''0 0 31 2 *'', output_path = ''shots'', width = 1920,
                  height = 1080, full_page = True, enabled = True\<rparr>"

definition form_invalid :: ui where
  "form_invalid = \<lparr>url_entry = ''http://a.example'', schedule_option = ''Custom'',
                    hour_spinbox = ''1x'', minute_spinbox = ''00'', width_entry = ''1920'',
                    height_entry = ''1080'', output_path_entry = '''', full_page_var = True\<rparr>"

definition form_no_height :: ui where
  "form_no_height = form_invalid\<lparr>height_entry := []\<rparr>"

definition form_custom :: ui where
  "form_custom = \<lparr>url_entry = '' http://a.example '', schedule_option = ''Custom'',
                   hour_spinbox = ''-5'', minute_spinbox = ''62'', width_entry = ''1920'',
                   height_entry = ''1080'', output_path_entry = [], full_page_var = True\<rparr>"

definition task_u1 :: ScreenshotTask where
  "task_u1 = \<lparr>id_task = ''u1'', url = ''http://a.example'', cron_schedule = ''2 19 * * *'',
               output_path = ''shots'', width = 1920, height = 1080, full_page = True,
               enabled = True\<rparr>"

definition app_u1 :: "CronSpec app" where
  "app_u1 =
     \<lparr>config_manager = store_tasks empty_config [task_u1],
      scheduler = [''u1'' \<mapsto> \<lparr>job_task = task_u1,
                    job_trigger = \<lparr>cs_minute = Exactly 2, cs_hour = Exactly 19, cs_day = Any,
                                   cs_month = Any, cs_day_of_week = Any\<rparr>\<rparr>],
      console = [Scheduled_task ''http://a.example'' ''2 19 * * *'']\<rparr>"

text \<open>
  Two worlds of captures: one where an earlier capture of task \<open>a\<close> is in flight
  while a manual and a scheduled attempt for \<open>a\<close> start, and one with an idle lock
  and one attempt each for the tasks \<open>a\<close> and \<open>b\<close>.
\<close>

text \<open>An action whose end tells whether it ran under the locked lock.\<close>

definition watching :: "lock \<Rightarrow> completion" where
  "watching l = (if l then Succeeded else Raised)"

definition in_flight :: thread where
  "in_flight = \<lparr>th_origin = Scheduled, th_task = ''a'', th_end = Succeeded, th_pc = Holding\<rparr>"

definition world_running :: world where
  "world_running =
     \<lparr>capture_lock = True,
      threads = [in_flight, attempt Manual ''a'' Succeeded, attempt Scheduled ''a'' Failed]\<rparr>"

definition world_idle :: world where
  "world_idle =
     \<lparr>capture_lock = False,
      threads = [attempt Manual ''a'' Succeeded, attempt Scheduled ''b'' Raised]\<rparr>"

section \<open>Round trip of a task through its dictionary\<close>

lemma from_dict_to_dict: "from_dict (to_dict t) = Inr t"
  by (simp add: from_dict_def to_dict_def field_names_def str_arg_def int_arg_def
      bool_arg_def then_do_def)

lemma from_dicts_to_dicts: "from_dicts (map to_dict ts) = Inr ts"
  by (induction ts) (simp_all add: from_dict_to_dict then_do_def)

lemma get_tasks_store_tasks: "get_tasks (store_tasks cfg ts) = Inr ts"
  by (simp add: get_tasks_def store_tasks_def from_dicts_to_dicts)

text \<open>
  Claim C9. For every task \<open>t\<close>, building a task from the dictionary of \<open>t\<close> gives
  \<open>t\<close> back; hence a task list written to the configuration and read again is the
  same list.
\<close>

theorem task_dict_round_trip:
  "from_dict (to_dict t) = Inr t \<and> get_tasks (store_tasks cfg ts) = Inr ts"
  by (simp add: from_dict_to_dict get_tasks_store_tasks)

section \<open>Updating a stored task\<close>

lemma length_replace_first: "length (replace_first task ts) = length ts"
  by (induction ts) simp_all

lemma replace_first_absent:
  "id_task task \<notin> id_task ` set ts \<Longrightarrow> replace_first task ts = ts"
  by (induction ts) auto

lemma replace_first_others:
  "filter (\<lambda>t. id_task t \<noteq> id_task task) (replace_first task ts) =
   filter (\<lambda>t. id_task t \<noteq> id_task task) ts"
  by (induction ts) auto

lemma filter_id_absent:
  "i \<notin> id_task ` set ts \<Longrightarrow> filter (\<lambda>t. id_task t = i) ts = []"
  by (induction ts) auto

lemma replace_first_present:
  "distinct (map id_task ts) \<Longrightarrow> id_task task \<in> id_task ` set ts \<Longrightarrow>
   filter (\<lambda>t. id_task t = id_task task) (replace_first task ts) = [task]"
proof (induction ts)
  case Nil
  then show ?case by simp
next
  case (Cons t ts)
  show ?case
  proof (cases "id_task t = id_task task")
    case True
    with Cons.prems have "id_task task \<notin> id_task ` set ts" by auto
    then have "filter (\<lambda>t. id_task t = id_task task) ts = []"
      by (rule filter_id_absent)
    with True show ?thesis by simp
  next
    case False
    with Cons show ?thesis by auto
  qed
qed

lemma update_task_get_tasks:
  "get_tasks cfg = Inr ts \<Longrightarrow>
   then_do (update_task cfg task) get_tasks = Inr (replace_first task ts)"
  by (simp add: update_task_def then_do_def get_tasks_store_tasks)

text \<open>
  Claim C5, as stated, fails: \<open>update_task\<close> for an id that no stored task has inserts
  nothing. Here the stored list is empty before and after.
\<close>

theorem update_task_counterexample:
  "get_tasks empty_config = Inr [] \<and>
   then_do (update_task empty_config task_a) get_tasks = Inr []"
  by (simp add: update_task_def then_do_def get_tasks_def store_tasks_def empty_config_def)

lemma replace_first_index:
  "replace_first task ts =
     ts[length (takeWhile (\<lambda>t. id_task t \<noteq> id_task task) ts) := task]"
  by (induction ts) simp_all

lemma replace_first_split:
  "id_task old = id_task task \<Longrightarrow> id_task task \<notin> id_task ` set pre \<Longrightarrow>
   replace_first task (pre @ old # post) = pre @ task # post"
  by (induction pre) auto

text \<open>
  Claim C5, amended. \<open>update_task\<close> replaces, in place, the first stored task that has
  the given id: the result is the stored list with the new task written at the index of
  the first task of that id, so the tasks before it, the tasks after it (also those of
  the same id) and the length of the list are unchanged. When no stored task has the
  id the list is unchanged: nothing is inserted. When the stored ids are distinct and
  one is the given id, exactly one task of the result has that id, and it is the new
  task.
\<close>

theorem update_task_replaces:
  assumes "get_tasks cfg = Inr ts"
  shows "\<exists>ts'. then_do (update_task cfg task) get_tasks = Inr ts' \<and>
           ts' = ts[length (takeWhile (\<lambda>t. id_task t \<noteq> id_task task) ts) := task] \<and>
           (\<forall>pre old post. ts = pre @ old # post \<and> id_task old = id_task task \<and>
              id_task task \<notin> id_task ` set pre \<longrightarrow> ts' = pre @ task # post) \<and>
           length ts' = length ts \<and>
           filter (\<lambda>t. id_task t \<noteq> id_task task) ts' =
             filter (\<lambda>t. id_task t \<noteq> id_task task) ts \<and>
           (id_task task \<notin> id_task ` set ts \<longrightarrow> ts' = ts) \<and>
           (distinct (map id_task ts) \<and> id_task task \<in> id_task ` set ts \<longrightarrow>
              filter (\<lambda>t. id_task t = id_task task) ts' = [task])"
proof -
  let ?ts' = "replace_first task ts"
  have "then_do (update_task cfg task) get_tasks = Inr ?ts'"
    using assms by (rule update_task_get_tasks)
  moreover have "?ts' = ts[length (takeWhile (\<lambda>t. id_task t \<noteq> id_task task) ts) := task]"
    by (rule replace_first_index)
  moreover have "\<forall>pre old post. ts = pre @ old # post \<and> id_task old = id_task task \<and>
              id_task task \<notin> id_task ` set pre \<longrightarrow> ?ts' = pre @ task # post"
    using replace_first_split by blast
  moreover have "length ?ts' = length ts"
    by (rule length_replace_first)
  moreover have "filter (\<lambda>t. id_task t \<noteq> id_task task) ?ts' =
                 filter (\<lambda>t. id_task t \<noteq> id_task task) ts"
    by (rule replace_first_others)
  moreover have "id_task task \<notin> id_task ` set ts \<longrightarrow> ?ts' = ts"
    by (simp add: replace_first_absent)
  moreover have "distinct (map id_task ts) \<and> id_task task \<in> id_task ` set ts \<longrightarrow>
              filter (\<lambda>t. id_task t = id_task task) ?ts' = [task]"
    by (simp add: replace_first_present)
  ultimately show ?thesis by blast
qed

theorem update_task_replaces_witness:
  "get_tasks (store_tasks empty_config [task_b, task_a, task_b, task_a2]) =
     Inr [task_b, task_a, task_b, task_a2] \<and>
   id_task task_a2 = id_task task_a \<and> task_a2 \<noteq> task_a \<and>
   then_do (update_task (store_tasks empty_config [task_b, task_a, task_b, task_a2])
              (task_a\<lparr>width := 1024\<rparr>)) get_tasks =
     Inr [task_b, task_a\<lparr>width := 1024\<rparr>, task_b, task_a2] \<and>
   get_tasks (store_tasks empty_config [task_a, task_b]) = Inr [task_a, task_b] \<and>
   then_do (update_task (store_tasks empty_config [task_a, task_b]) (task_b\<lparr>width := 1024\<rparr>))
     get_tasks = Inr [task_a, task_b\<lparr>width := 1024\<rparr>] \<and>
   then_do (update_task (store_tasks empty_config [task_a, task_b]) task_short) get_tasks =
     Inr [task_a, task_b]"
proof -
  have ids: "id_task task_a = ''a''" "id_task task_b = ''b''" "id_task task_a2 = ''a''"
    "id_task task_short = ''short''" "task_a2 \<noteq> task_a"
    by (simp_all add: task_a_def task_b_def task_a2_def task_short_def)
  have g1: "get_tasks (store_tasks empty_config [task_b, task_a, task_b, task_a2]) =
            Inr [task_b, task_a, task_b, task_a2]"
    and g2: "get_tasks (store_tasks empty_config [task_a, task_b]) = Inr [task_a, task_b]"
    by (simp_all only: get_tasks_store_tasks)
  from update_task_replaces [OF g1, of "task_a\<lparr>width := 1024\<rparr>"] ids
  have u1: "then_do (update_task (store_tasks empty_config [task_b, task_a, task_b, task_a2])
              (task_a\<lparr>width := 1024\<rparr>)) get_tasks =
            Inr [task_b, task_a\<lparr>width := 1024\<rparr>, task_b, task_a2]"
    by simp
  from update_task_replaces [OF g2, of "task_b\<lparr>width := 1024\<rparr>"] ids
  have u2: "then_do (update_task (store_tasks empty_config [task_a, task_b])
              (task_b\<lparr>width := 1024\<rparr>)) get_tasks = Inr [task_a, task_b\<lparr>width := 1024\<rparr>]"
    by simp
  from update_task_replaces [OF g2, of task_short] ids
  have u3: "then_do (update_task (store_tasks empty_config [task_a, task_b]) task_short)
              get_tasks = Inr [task_a, task_b]"
    by simp
  from g1 g2 ids u1 u2 u3 show ?thesis by simp
qed

section \<open>Mutual exclusion of captures\<close>

lemma count_update:
  "i < length xs \<Longrightarrow>
   length (filter P (xs[i := y])) + (if P (xs ! i) then 1 else 0) =
   length (filter P xs) + (if P y then 1 else 0)"
proof (induction xs arbitrary: i)
  case Nil
  then show ?case by simp
next
  case (Cons x xs)
  then show ?case by (cases i) auto
qed

lemma list_all_update:
  "list_all P xs \<Longrightarrow> P y \<Longrightarrow> list_all P (xs[i := y])"
  by (induction xs arbitrary: i) (auto split: nat.splits)

lemma holding_counted:
  "i < length xs \<Longrightarrow> P (xs ! i) \<Longrightarrow> 1 \<le> length (filter P xs)"
proof -
  assume "i < length xs" and "P (xs ! i)"
  then have "xs ! i \<in> set (filter P xs)" by simp
  then have "filter P xs \<noteq> []" by (metis empty_iff list.set(1)) 
  then show ?thesis by (cases "filter P xs") simp_all
qed

lemma step_out_of_range: "length (threads w) \<le> i \<Longrightarrow> step i w = w"
  by (simp add: step_def)

lemma length_threads_step: "length (threads (step i w)) = length (threads w)"
  by (simp add: step_def acquire_nonblocking_def release_def Let_def split: pc.splits)

lemma step_ready_free:
  assumes "i < length (threads w)" "th_pc (threads w ! i) = Ready" "\<not> capture_lock w"
  shows "step i w = \<lparr>capture_lock = True,
                      threads = (threads w)[i := (threads w ! i)\<lparr>th_pc := Holding\<rparr>]\<rparr>"
  using assms by (simp add: step_def acquire_nonblocking_def)

lemma step_ready_locked:
  assumes "i < length (threads w)" "th_pc (threads w ! i) = Ready" "capture_lock w"
  shows "step i w = \<lparr>capture_lock = True,
                      threads = (threads w)[i := (threads w ! i)\<lparr>th_pc := Skipped_pc\<rparr>]\<rparr>"
  using assms by (simp add: step_def acquire_nonblocking_def)

lemma step_holding_locked:
  assumes "i < length (threads w)" "th_pc (threads w ! i) = Holding" "capture_lock w"
  shows "step i w = \<lparr>capture_lock = False,
                      threads = (threads w)[i := (threads w ! i)
                                   \<lparr>th_pc := Finished (th_end (threads w ! i))\<rparr>]\<rparr>"
  using assms by (simp add: step_def release_def Let_def)

lemma step_terminated:
  assumes "th_pc (threads w ! i) \<noteq> Ready" "th_pc (threads w ! i) \<noteq> Holding"
  shows "step i w = w"
  using assms by (simp add: step_def Let_def split: pc.splits)

lemma consistent_holding_locked:
  assumes "consistent w" "i < length (threads w)" "th_pc (threads w ! i) = Holding"
  shows "capture_lock w \<and> holders w = 1"
proof -
  have "1 \<le> holders w"
    unfolding holders_def using assms(2,3) by (rule holding_counted)
  with assms(1) show ?thesis by (auto simp: consistent_def)
qed

lemma consistent_step:
  assumes "consistent w"
  shows "consistent (step i w)"
proof (cases "i < length (threads w)")
  case False
  with assms show ?thesis by (simp add: step_out_of_range)
next
  case inr: True
  let ?t = "threads w ! i"
  let ?H = "\<lambda>t. th_pc t = Holding"
  have nc: "list_all (\<lambda>t. th_pc t \<noteq> Crashed) (threads w)"
    using assms by (simp add: consistent_def)
  show ?thesis
  proof (cases "th_pc ?t")
    case Ready
    show ?thesis
    proof (cases "capture_lock w")
      case True
      have "length (filter ?H ((threads w)[i := ?t\<lparr>th_pc := Skipped_pc\<rparr>])) =
            length (filter ?H (threads w))"
        using count_update [OF inr, of ?H "?t\<lparr>th_pc := Skipped_pc\<rparr>"] Ready by simp
      with assms nc True show ?thesis
        by (simp add: step_ready_locked [OF inr Ready True] consistent_def holders_def
            list_all_update)
    next
      case False
      with assms have "holders w = 0"
        by (auto simp: consistent_def)
      then have h0: "length (filter ?H (threads w)) = 0"
        by (simp add: holders_def)
      have "length (filter ?H ((threads w)[i := ?t\<lparr>th_pc := Holding\<rparr>])) = 1"
        using count_update [OF inr, of ?H "?t\<lparr>th_pc := Holding\<rparr>"] Ready h0 by simp
      with nc show ?thesis
        by (simp add: step_ready_free [OF inr Ready False] consistent_def holders_def
            list_all_update)
    qed
  next
    case Holding
    from consistent_holding_locked [OF assms inr Holding]
    have lk: "capture_lock w" and h1: "length (filter ?H (threads w)) = 1"
      by (simp_all add: holders_def)
    have "length (filter ?H ((threads w)[i := ?t\<lparr>th_pc := Finished (th_end ?t)\<rparr>])) = 0"
      using count_update [OF inr, of ?H "?t\<lparr>th_pc := Finished (th_end ?t)\<rparr>"] Holding h1
      by simp
    with nc show ?thesis
      by (simp add: step_holding_locked [OF inr Holding lk] consistent_def holders_def
          list_all_update)
  next
    case Skipped_pc
    with assms show ?thesis by (simp add: step_terminated)
  next
    case (Finished c)
    with assms show ?thesis by (simp add: step_terminated)
  next
    case Crashed
    with assms show ?thesis by (simp add: step_terminated)
  qed
qed

lemma consistent_run: "consistent w \<Longrightarrow> consistent (run sched w)"
  unfolding run_def by (induction sched arbitrary: w) (simp_all add: consistent_step)


lemmas world_eval = run_def step_def acquire_nonblocking_def release_def Let_def
  world_running_def world_idle_def in_flight_def attempt_def holders_def

lemma consistent_world_running: "consistent world_running"
  by (simp add: consistent_def world_eval)

lemma consistent_world_idle: "consistent world_idle"
  by (simp add: consistent_def world_eval)

text \<open>
  Claim C1, as stated, fails. While an earlier capture holds the lock, a manual and a
  scheduled attempt for the same task are both skipped, in either order, so neither
  transitions the guard. And when the earlier capture ends first, the manual attempt
  runs to its end and the scheduled attempt then acquires too: both transition, one
  after the other.
\<close>

theorem concurrent_attempts_counterexample:
  "capture_lock world_running \<and> consistent world_running \<and>
   map th_pc (threads (run [1, 2] world_running)) = [Holding, Skipped_pc, Skipped_pc] \<and>
   map th_pc (threads (run [2, 1] world_running)) = [Holding, Skipped_pc, Skipped_pc] \<and>
   map th_pc (threads (run [0, 1, 1, 2] world_running)) =
     [Finished Succeeded, Finished Succeeded, Holding]"
  by (simp add: consistent_world_running) (simp add: world_eval)

text \<open>
  Claim C1, amended. From a consistent state, no interleaving of the attempts has more
  than one holder of the lock. An attempt made while the lock is locked is skipped and
  changes neither the lock nor the holders; an attempt made while it is free becomes
  the one holder.
\<close>

theorem single_flight:
  assumes "consistent w"
  shows "holders (run sched w) \<le> 1 \<and>
         (\<forall>i < length (threads w). th_pc (threads w ! i) = Ready \<longrightarrow>
            (capture_lock w \<longrightarrow>
               th_pc (threads (step i w) ! i) = Skipped_pc \<and>
               capture_lock (step i w) \<and> holders (step i w) = holders w) \<and>
            (\<not> capture_lock w \<longrightarrow>
               th_pc (threads (step i w) ! i) = Holding \<and>
               capture_lock (step i w) \<and> holders (step i w) = 1))"
proof -
  have "consistent (run sched w)"
    using assms by (rule consistent_run)
  then have first: "holders (run sched w) \<le> 1"
    by (simp add: consistent_def)
  have second: "th_pc (threads (step i w) ! i) = Skipped_pc \<and>
                capture_lock (step i w) \<and> holders (step i w) = holders w"
    if "i < length (threads w)" "th_pc (threads w ! i) = Ready" "capture_lock w" for i
  proof -
    let ?t = "threads w ! i"
    have "length (filter (\<lambda>t. th_pc t = Holding) ((threads w)[i := ?t\<lparr>th_pc := Skipped_pc\<rparr>])) =
          length (filter (\<lambda>t. th_pc t = Holding) (threads w))"
      using count_update [OF that(1), of "\<lambda>t. th_pc t = Holding" "?t\<lparr>th_pc := Skipped_pc\<rparr>"]
        that(2) by simp
    with that show ?thesis
      by (simp add: step_ready_locked holders_def)
  qed
  have third: "th_pc (threads (step i w) ! i) = Holding \<and>
               capture_lock (step i w) \<and> holders (step i w) = 1"
    if "i < length (threads w)" "th_pc (threads w ! i) = Ready" "\<not> capture_lock w" for i
  proof -
    let ?t = "threads w ! i"
    from assms that(3) have "holders w = 0"
      by (auto simp: consistent_def)
    then have "length (filter (\<lambda>t. th_pc t = Holding) ((threads w)[i := ?t\<lparr>th_pc := Holding\<rparr>])) = 1"
      using count_update [OF that(1), of "\<lambda>t. th_pc t = Holding" "?t\<lparr>th_pc := Holding\<rparr>"]
        that(2) by (simp add: holders_def)
    with that show ?thesis
      by (simp add: step_ready_free holders_def)
  qed
  from first second third show ?thesis by blast
qed

theorem single_flight_witness:
  "consistent world_idle \<and> holders (run [1, 0, 1] world_idle) \<le> 1 \<and>
   th_pc (threads (step 1 world_idle) ! 1) = Holding \<and>
   th_pc (threads (step 0 (step 1 world_idle)) ! 0) = Skipped_pc"
  using single_flight [OF consistent_world_idle, of "[1, 0, 1]"]
    single_flight [OF consistent_step [OF consistent_world_idle], of "[]" 1]
  by (simp add: consistent_world_idle) (simp add: world_eval)


text \<open>
  Claim C2, as stated, fails: there is one lock for all tasks. Acquiring it for task
  \<open>a\<close> changes the guard of task \<open>b\<close> from free to locked, and the attempt for
  \<open>b\<close> that follows is skipped.
\<close>

theorem per_task_guard_counterexample:
  "th_task (threads world_idle ! 0) \<noteq> th_task (threads world_idle ! 1) \<and>
   guard_of world_idle ''b'' = False \<and>
   guard_of (step 0 world_idle) ''b'' = True \<and>
   map th_pc (threads (run [0, 1] world_idle)) = [Holding, Skipped_pc]"
  by (simp add: guard_of_def world_eval)

text \<open>
  Claim C2, amended. The guard of any two tasks is the same lock: while a capture of
  any task holds it, an attempt for any task, the same or another, is skipped; and no
  interleaving has two holders.
\<close>

theorem shared_capture_lock:
  assumes "consistent w"
    and "i < length (threads w)" and "th_pc (threads w ! i) = Holding"
    and "j < length (threads w)" and "th_pc (threads w ! j) = Ready"
  shows "guard_of w (th_task (threads w ! j)) = guard_of w (th_task (threads w ! i)) \<and>
         guard_of w (th_task (threads w ! j)) \<and>
         th_pc (threads (step j w) ! j) = Skipped_pc \<and>
         holders (run sched w) \<le> 1"
proof -
  from consistent_holding_locked [OF assms(1,2,3)] have lk: "capture_lock w" by simp
  have "consistent (run sched w)"
    using assms(1) by (rule consistent_run)
  then have "holders (run sched w) \<le> 1"
    by (simp add: consistent_def)
  with lk assms(4,5) show ?thesis
    by (simp add: guard_of_def step_ready_locked)
qed

theorem shared_capture_lock_witness:
  "consistent (step 0 world_idle) \<and>
   th_pc (threads (step 0 world_idle) ! 0) = Holding \<and>
   th_task (threads (step 0 world_idle) ! 0) = ''a'' \<and>
   th_pc (threads (step 0 world_idle) ! 1) = Ready \<and>
   th_task (threads (step 0 world_idle) ! 1) = ''b'' \<and>
   guard_of (step 0 world_idle) ''b'' = guard_of (step 0 world_idle) ''a'' \<and>
   th_pc (threads (step 1 (step 0 world_idle)) ! 1) = Skipped_pc \<and>
   holders (run [1, 0] (step 0 world_idle)) \<le> 1"
  using shared_capture_lock [OF consistent_step [OF consistent_world_idle], of 0 0 1 "[1, 0]"]
  by (simp add: consistent_step consistent_world_idle) (simp add: guard_of_def world_eval)

lemma capture_body_free:
  "capture_body action False = (False, Ran (action True))"
  by (simp add: capture_body_def acquire_nonblocking_def release_def)

lemma capture_body_locked:
  "capture_body action True = (True, Skipped)"
  by (simp add: capture_body_def acquire_nonblocking_def)

lemma thread_alone_locked:
  assumes "i < length (threads w)" "th_pc (threads w ! i) = Ready" "capture_lock w"
  shows "capture_lock (run [i, i] w) = True \<and>
         th_pc (threads (run [i, i] w) ! i) = Skipped_pc"
proof -
  let ?w1 = "step i w"
  have w1: "?w1 = \<lparr>capture_lock = True,
                    threads = (threads w)[i := (threads w ! i)\<lparr>th_pc := Skipped_pc\<rparr>]\<rparr>"
    using assms by (rule step_ready_locked)
  have pc1: "th_pc (threads ?w1 ! i) = Skipped_pc"
    using assms(1) by (simp add: w1)
  then have "step i ?w1 = ?w1"
    by (simp add: step_terminated)
  with pc1 show ?thesis
    by (simp add: run_def) (simp add: w1)
qed

lemma thread_alone_free:
  assumes "i < length (threads w)" "th_pc (threads w ! i) = Ready" "\<not> capture_lock w"
  shows "capture_lock (run [i, i] w) = False \<and>
         th_pc (threads (run [i, i] w) ! i) = Finished (th_end (threads w ! i))"
proof -
  let ?w1 = "step i w"
  have w1: "?w1 = \<lparr>capture_lock = True,
                    threads = (threads w)[i := (threads w ! i)\<lparr>th_pc := Holding\<rparr>]\<rparr>"
    using assms by (rule step_ready_free)
  have len: "i < length (threads ?w1)" and pc1: "th_pc (threads ?w1 ! i) = Holding"
    and lk: "capture_lock ?w1" and en: "th_end (threads ?w1 ! i) = th_end (threads w ! i)"
    using assms(1) by (simp_all add: w1)
  from step_holding_locked [OF len pc1 lk] len en
  show ?thesis
    by (simp add: run_def)
qed

text \<open>
  Claim C6. A capture that acquired the lock releases it when its action ends, whether
  the action succeeded, failed or raised, and an acquire attempt after that succeeds.
  For the body run on its own: the action runs under the locked lock, the lock is free
  afterwards, and a body that finds the lock locked is skipped and leaves it locked.
  For a holding thread among others: its next step frees the lock. And the two agree:
  a thread that is not interrupted between its two steps does what the body does.
\<close>

theorem guard_released_after_action:
  "(fst (acquire_nonblocking l) \<longrightarrow>
      capture_body action l = (False, Ran (action True)) \<and>
      acquire_nonblocking (fst (capture_body action l)) = (True, True)) \<and>
   (\<not> fst (acquire_nonblocking l) \<longrightarrow> capture_body action l = (True, Skipped)) \<and>
   (consistent w \<and> i < length (threads w) \<and> th_pc (threads w ! i) = Holding \<longrightarrow>
      th_pc (threads (step i w) ! i) = Finished (th_end (threads w ! i)) \<and>
      capture_lock (step i w) = False \<and>
      acquire_nonblocking (capture_lock (step i w)) = (True, True)) \<and>
   (i < length (threads w) \<and> th_pc (threads w ! i) = Ready \<longrightarrow>
      capture_lock (run [i, i] w) =
        fst (capture_body (\<lambda>l. th_end (threads w ! i)) (capture_lock w)) \<and>
      th_pc (threads (run [i, i] w) ! i) =
        pc_of_result (snd (capture_body (\<lambda>l. th_end (threads w ! i)) (capture_lock w))))"
proof -
  have seq: "capture_body action l = (False, Ran (action True)) \<and>
             acquire_nonblocking (fst (capture_body action l)) = (True, True)"
    if "fst (acquire_nonblocking l)"
  proof -
    from that have "l = False" by (cases l) (simp_all add: acquire_nonblocking_def)
    then show ?thesis by (simp add: capture_body_free acquire_nonblocking_def)
  qed
  have skip: "capture_body action l = (True, Skipped)" if "\<not> fst (acquire_nonblocking l)"
  proof -
    from that have "l = True" by (cases l) (simp_all add: acquire_nonblocking_def)
    then show ?thesis by (simp add: capture_body_locked)
  qed
  have thr: "th_pc (threads (step i w) ! i) = Finished (th_end (threads w ! i)) \<and>
             capture_lock (step i w) = False \<and>
             acquire_nonblocking (capture_lock (step i w)) = (True, True)"
    if "consistent w" "i < length (threads w)" "th_pc (threads w ! i) = Holding"
  proof -
    from consistent_holding_locked [OF that] have "capture_lock w" by simp
    with that(2,3) show ?thesis
      by (simp add: step_holding_locked acquire_nonblocking_def)
  qed
  have link: "capture_lock (run [i, i] w) =
                fst (capture_body (\<lambda>l. th_end (threads w ! i)) (capture_lock w)) \<and>
              th_pc (threads (run [i, i] w) ! i) =
                pc_of_result (snd (capture_body (\<lambda>l. th_end (threads w ! i)) (capture_lock w)))"
    if "i < length (threads w)" "th_pc (threads w ! i) = Ready"
  proof (cases "capture_lock w")
    case True
    with thread_alone_locked [OF that True] show ?thesis
      by (simp add: capture_body_locked)
  next
    case False
    with thread_alone_free [OF that False] show ?thesis
      by (simp add: capture_body_free)
  qed
  from seq skip thr link show ?thesis by blast
qed

theorem guard_released_after_action_witness:
  "fst (acquire_nonblocking False) \<and>
   watching True = Succeeded \<and> watching False = Raised \<and>
   capture_body watching False = (False, Ran Succeeded) \<and>
   capture_body (\<lambda>l. Failed) False = (False, Ran Failed) \<and>
   capture_body (\<lambda>l. Raised) False = (False, Ran Raised) \<and>
   capture_body watching True = (True, Skipped) \<and>
   consistent world_running \<and> th_pc (threads world_running ! 0) = Holding \<and>
   capture_lock (step 0 world_running) = False \<and>
   th_pc (threads world_idle ! 1) = Ready \<and>
   capture_lock (run [1, 1] world_idle) = False \<and>
   th_pc (threads (run [1, 1] world_idle) ! 1) = Finished Raised"
proof -
  have acq: "fst (acquire_nonblocking False)" and nacq: "\<not> fst (acquire_nonblocking True)"
    by (simp_all add: acquire_nonblocking_def)
  have w: "watching True = Succeeded" "watching False = Raised"
    by (simp_all add: watching_def)
  have hold: "th_pc (threads world_running ! 0) = Holding" "0 < length (threads world_running)"
    by (simp_all add: world_running_def in_flight_def)
  have ready: "th_pc (threads world_idle ! 1) = Ready" "1 < length (threads world_idle)"
    "th_end (threads world_idle ! 1) = Raised" "\<not> capture_lock world_idle"
    by (simp_all add: world_idle_def attempt_def)
  note gr = guard_released_after_action
  from gr [of False watching world_running 0] acq w
  have b1: "capture_body watching False = (False, Ran Succeeded)" by simp
  from gr [of False "\<lambda>l. Failed" world_running 0] acq
  have b2: "capture_body (\<lambda>l. Failed) False = (False, Ran Failed)" by simp
  from gr [of False "\<lambda>l. Raised" world_running 0] acq
  have b3: "capture_body (\<lambda>l. Raised) False = (False, Ran Raised)" by simp
  from gr [of True watching world_running 0] nacq
  have b4: "capture_body watching True = (True, Skipped)" by simp
  from gr [of False watching world_running 0] consistent_world_running hold
  have t1: "capture_lock (step 0 world_running) = False" by simp
  from gr [of False "\<lambda>l. Raised" world_idle 1] ready b3
  have t2: "capture_lock (run [1, 1] world_idle) = False"
    "th_pc (threads (run [1, 1] world_idle) ! 1) = Finished Raised"
    by simp_all
  from acq w b1 b2 b3 b4 consistent_world_running hold(1) t1 ready(1) t2
  show ?thesis by simp
qed

text \<open>
  Claim C7, as stated, fails: releasing the lock while it is unlocked raises
  \<open>RuntimeError\<close>, it is not a no-op.
\<close>

theorem release_idle_counterexample:
  "release False = Inl RuntimeError \<and> release False \<noteq> Inr False"
  by (simp add: release_def)

text \<open>
  Claim C7, amended. Releasing the locked lock unlocks it. The capture body releases
  only after it acquired, so its release never raises, and in no interleaving from a
  consistent state does a thread crash in its release.
\<close>

theorem release_only_when_held:
  "release True = Inr False \<and>
   snd (capture_body action l) \<noteq> Release_raised \<and>
   (consistent w \<longrightarrow> list_all (\<lambda>t. th_pc t \<noteq> Crashed) (threads (run sched w)))"
proof -
  have "snd (capture_body action l) \<noteq> Release_raised"
    by (cases l) (simp_all add: capture_body_free capture_body_locked)
  moreover have "list_all (\<lambda>t. th_pc t \<noteq> Crashed) (threads (run sched w))" if "consistent w"
    using consistent_run [OF that, of sched] by (simp add: consistent_def)
  ultimately show ?thesis by (simp add: release_def)
qed

theorem release_only_when_held_witness:
  "consistent world_running \<and>
   map th_pc (threads (run [1, 0, 2, 2, 0] world_running)) =
     [Finished Succeeded, Skipped_pc, Finished Failed] \<and>
   list_all (\<lambda>t. th_pc t \<noteq> Crashed) (threads (run [1, 0, 2, 2, 0] world_running))"
  using release_only_when_held [of "\<lambda>l. Succeeded" False world_running "[1, 0, 2, 2, 0]"]
  by (simp add: consistent_world_running) (simp add: world_eval)

section \<open>Scheduling and removing tasks\<close>

lemma schedule_task_config: "config_manager (schedule_task C task a) = config_manager a"
  by (simp add: schedule_task_def split: list.splits sum.splits)

lemma schedule_task_other_job:
  "k \<noteq> id_task task \<Longrightarrow> scheduler (schedule_task C task a) k = scheduler a k"
  by (simp add: schedule_task_def split: list.splits sum.splits)

lemma schedule_task_keeps_jobs:
  "scheduler a k \<noteq> None \<Longrightarrow> scheduler (schedule_task C task a) k \<noteq> None"
  by (simp add: schedule_task_def split: list.splits sum.splits)

lemma schedule_enabled_config:
  "config_manager (schedule_enabled C ts a) = config_manager a"
  by (induction ts arbitrary: a) (simp_all add: schedule_task_config)

lemma schedule_enabled_other_job:
  "k \<notin> id_task ` set ts \<Longrightarrow> scheduler (schedule_enabled C ts a) k = scheduler a k"
  by (induction ts arbitrary: a) (simp_all add: schedule_task_other_job)

lemma schedule_enabled_keeps_jobs:
  "scheduler a k \<noteq> None \<Longrightarrow> scheduler (schedule_enabled C ts a) k \<noteq> None"
proof (induction ts arbitrary: a)
  case Nil
  then show ?case by simp
next
  case (Cons t ts)
  have "scheduler (if enabled t then schedule_task C t a else a) k \<noteq> None"
    using Cons.prems schedule_task_keeps_jobs [of a k C t] by simp
  then show ?case
    using Cons.IH by simp
qed

lemma remove_task_config:
  "get_tasks cfg = Inr ts \<Longrightarrow>
   ConfigManager_remove_task cfg task_id =
     Inr (store_tasks cfg (filter (\<lambda>t. id_task t \<noteq> task_id) ts))"
  by (simp add: ConfigManager_remove_task_def then_do_def)

lemma App_remove_task_result:
  assumes "get_tasks (config_manager a) = Inr ts"
  shows "\<exists>a'. App_remove_task C task_id a = Inr (a', Show_success) \<and>
              get_tasks (config_manager a') = Inr (filter (\<lambda>t. id_task t \<noteq> task_id) ts) \<and>
              scheduler a' task_id = scheduler a task_id"
proof -
  let ?ts = "filter (\<lambda>t. id_task t \<noteq> task_id) ts"
  let ?a = "a\<lparr>config_manager := store_tasks (config_manager a) ?ts\<rparr>"
  have "App_remove_task C task_id a = Inr (schedule_enabled C ?ts ?a, Show_success)"
    by (simp add: App_remove_task_def remove_task_config [OF assms] then_do_def
        load_scheduled_tasks_def get_tasks_store_tasks)
  moreover have "get_tasks (config_manager (schedule_enabled C ?ts ?a)) = Inr ?ts"
    by (simp add: schedule_enabled_config get_tasks_store_tasks)
  moreover have "task_id \<notin> id_task ` set ?ts" by auto
  then have "scheduler (schedule_enabled C ?ts ?a) task_id = scheduler a task_id"
    by (simp add: schedule_enabled_other_job)
  ultimately show ?thesis by blast
qed

lemmas cron_eval = py_split_def is_space_def parse_field_def dec_number_def is_digit_def
  digit_val_def CronTrigger_spec_def field_ok_def well_formed_cron_def

lemma load_two_tasks:
  "load_scheduled_tasks CronTrigger_spec (app_with [task_a, task_b]) =
     Inr (schedule_enabled CronTrigger_spec [task_a, task_b] (app_with [task_a, task_b]))"
  by (simp add: load_scheduled_tasks_def app_with_def get_tasks_store_tasks then_do_def)

lemma task_a_has_job:
  "dispatched (schedule_enabled CronTrigger_spec [task_a, task_b] (app_with [task_a, task_b])) ''a''"
  by (simp add: dispatched_def schedule_task_def task_a_def task_b_def app_with_def cron_eval)

text \<open>
  Claim C4 at a concrete input. Two tasks \<open>a\<close> and \<open>b\<close> are stored and scheduled;
  then \<open>a\<close> is removed. The stored list is left with \<open>b\<close> alone, but the scheduler
  still holds the job of \<open>a\<close> and goes on dispatching it: \<open>remove_task\<close> never
  removes a job.
\<close>

theorem removed_task_still_dispatched:
  "\<exists>a1 a2. load_scheduled_tasks CronTrigger_spec (app_with [task_a, task_b]) = Inr a1 \<and>
     dispatched a1 ''a'' \<and>
     App_remove_task CronTrigger_spec ''a'' a1 = Inr (a2, Show_success) \<and>
     get_tasks (config_manager a2) = Inr [task_b] \<and>
     dispatched a2 ''a''"
proof -
  let ?a1 = "schedule_enabled CronTrigger_spec [task_a, task_b] (app_with [task_a, task_b])"
  have "get_tasks (config_manager ?a1) = Inr [task_a, task_b]"
    by (simp only: schedule_enabled_config) (simp add: app_with_def get_tasks_store_tasks)
  from App_remove_task_result [OF this, of CronTrigger_spec "''a''"]
  obtain a2 where a2: "App_remove_task CronTrigger_spec ''a'' ?a1 = Inr (a2, Show_success)"
    "get_tasks (config_manager a2) = Inr (filter (\<lambda>t. id_task t \<noteq> ''a'') [task_a, task_b])"
    "scheduler a2 ''a'' = scheduler ?a1 ''a''"
    by blast
  from a2(2) have "get_tasks (config_manager a2) = Inr [task_b]"
    by (simp add: task_a_def task_b_def)
  moreover from a2(3) task_a_has_job have "dispatched a2 ''a''"
    by (simp add: dispatched_def)
  ultimately show ?thesis
    using load_two_tasks task_a_has_job a2(1) by blast
qed

section \<open>Expressions that cannot be scheduled\<close>

lemma schedule_task_wrong_count:
  "length (py_split (cron_schedule task)) \<noteq> 5 \<Longrightarrow>
   schedule_task C task a = a\<lparr>console := console a @ [Failed_to_schedule ValueError]\<rparr>"
  by (auto simp: schedule_task_def split: list.splits)

lemma schedule_task_trigger_raises:
  "py_split (cron_schedule task) = [mi, h, d, mo, dw] \<Longrightarrow> C mi h d mo dw = Inl e \<Longrightarrow>
   schedule_task C task a = a\<lparr>console := console a @ [Failed_to_schedule e]\<rparr>"
  by (simp add: schedule_task_def)

lemma schedule_task_trigger_built:
  "py_split (cron_schedule task) = [mi, h, d, mo, dw] \<Longrightarrow> C mi h d mo dw = Inr tr \<Longrightarrow>
   schedule_task C task a =
     a\<lparr>scheduler := (scheduler a)(id_task task \<mapsto> \<lparr>job_task = task, job_trigger = tr\<rparr>),
       console := console a @ [Scheduled_task (url task) (cron_schedule task)]\<rparr>"
  by (simp add: schedule_task_def)

lemma split_feb31: "py_split ''0 0 31 2 *'' = [''0'', ''0'', ''31'', ''2'', ''*'']"
  by (simp add: py_split_def is_space_def)

lemma trigger_feb31:
  "CronTrigger_spec ''0'' ''0'' ''31'' ''2'' ''*'' =
     Inr \<lparr>cs_minute = Exactly 0, cs_hour = Exactly 0, cs_day = Exactly 31,
          cs_month = Exactly 2, cs_day_of_week = Any\<rparr>"
  by (simp add: CronTrigger_spec_def parse_field_def dec_number_def is_digit_def digit_val_def)

text \<open>
  Claim C8, as stated, fails. For \<open>0 0 31 2 *\<close> the five fields are in range, the
  trigger is built, the job is stored under the task's id and the success line is
  printed: no error of any kind.
\<close>

theorem unreachable_date_counterexample:
  "well_formed_cron (cron_schedule task_feb31) \<and>
   dispatched (schedule_task CronTrigger_spec task_feb31 (app_with [task_feb31])) ''feb31'' \<and>
   console (schedule_task CronTrigger_spec task_feb31 (app_with [task_feb31])) =
     [Scheduled_task ''http://f.example'' ''0 0 31 2 *'']"
proof -
  have "py_split (cron_schedule task_feb31) = [''0'', ''0'', ''31'', ''2'', ''*'']"
    by (simp add: task_feb31_def split_feb31)
  from schedule_task_trigger_built [where C = CronTrigger_spec and a = "app_with [task_feb31]",
      OF this trigger_feb31]
  have "dispatched (schedule_task CronTrigger_spec task_feb31 (app_with [task_feb31])) ''feb31''"
    and "console (schedule_task CronTrigger_spec task_feb31 (app_with [task_feb31])) =
         [Scheduled_task ''http://f.example'' ''0 0 31 2 *'']"
    by (simp_all add: dispatched_def task_feb31_def app_with_def)
  moreover have "well_formed_cron (cron_schedule task_feb31)"
    by (simp add: well_formed_cron_def task_feb31_def split_feb31 field_ok_def parse_field_def
        dec_number_def is_digit_def digit_val_def)
  ultimately show ?thesis by simp
qed

text \<open>
  Claim C8, amended. For \<open>0 0 31 2 *\<close> the five-field check passes and the tokens
  \<open>0\<close>, \<open>0\<close>, \<open>31\<close>, \<open>2\<close>, \<open>*\<close> go to the trigger constructor. If it builds a
  trigger the job is stored under the task's id and the success line is printed; if it
  raises, the exception is caught and printed. No next fire time is computed, and the
  stored task list is unchanged either way.
\<close>

theorem unreachable_date_scheduled:
  assumes "cron_schedule task = ''0 0 31 2 *''"
  shows "(C ''0'' ''0'' ''31'' ''2'' ''*'' = Inr tr \<longrightarrow>
            schedule_task C task a =
              a\<lparr>scheduler := (scheduler a)(id_task task \<mapsto> \<lparr>job_task = task, job_trigger = tr\<rparr>),
                console := console a @ [Scheduled_task (url task) (cron_schedule task)]\<rparr>) \<and>
         (C ''0'' ''0'' ''31'' ''2'' ''*'' = Inl e \<longrightarrow>
            schedule_task C task a = a\<lparr>console := console a @ [Failed_to_schedule e]\<rparr>) \<and>
         config_manager (schedule_task C task a) = config_manager a"
proof -
  have "py_split (cron_schedule task) = [''0'', ''0'', ''31'', ''2'', ''*'']"
    by (simp only: assms split_feb31)
  from schedule_task_trigger_built [where C = C and tr = tr and a = a, OF this]
    schedule_task_trigger_raises [where C = C and e = e and a = a, OF this]
  show ?thesis
    by (simp add: schedule_task_config)
qed

theorem unreachable_date_scheduled_witness:
  "cron_schedule task_feb31 = ''0 0 31 2 *'' \<and>
   scheduler (schedule_task CronTrigger_spec task_feb31 (app_with [])) ''feb31'' =
     Some \<lparr>job_task = task_feb31,
           job_trigger = \<lparr>cs_minute = Exactly 0, cs_hour = Exactly 0, cs_day = Exactly 31,
                          cs_month = Exactly 2, cs_day_of_week = Any\<rparr>\<rparr> \<and>
   schedule_task (\<lambda>mi h d mo dw. Inl TriggerError :: error + CronSpec) task_feb31 (app_with []) =
     (app_with [])\<lparr>console := [Failed_to_schedule TriggerError]\<rparr>"
proof -
  have c: "cron_schedule task_feb31 = ''0 0 31 2 *''"
    by (simp add: task_feb31_def)
  from unreachable_date_scheduled [OF c, where C = CronTrigger_spec and a = "app_with []"]
    unreachable_date_scheduled [OF c,
      where C = "\<lambda>mi h d mo dw. Inl TriggerError :: error + CronSpec" and e = TriggerError
        and a = "app_with []"]
    trigger_feb31 c
  show ?thesis
    by (simp add: app_with_def) (simp add: task_feb31_def)
qed

section \<open>The expressions the form produces\<close>

declare str_nat.simps [simp del]

lemma of_char_digit_char: "n < 10 \<Longrightarrow> (of_char (digit_char n) :: nat) = 48 + n"
  by (simp add: digit_char_def)

lemma is_digit_digit_char: "n < 10 \<Longrightarrow> is_digit (digit_char n)"
  by (simp add: is_digit_def of_char_digit_char)

lemma digit_val_digit_char: "n < 10 \<Longrightarrow> digit_val (digit_char n) = n"
  by (simp add: digit_val_def of_char_digit_char)

lemma is_digit_not_space: "is_digit c \<Longrightarrow> \<not> is_space c"
  by (simp add: is_digit_def is_space_def Let_def)

lemma str_nat_digits: "list_all is_digit (str_nat n) \<and> str_nat n \<noteq> []"
proof (induction n rule: str_nat.induct)
  case (1 n)
  show ?case
  proof (cases "n < 10")
    case True
    then show ?thesis by (simp add: str_nat.simps [of n] is_digit_digit_char)
  next
    case False
    with 1 show ?thesis by (simp add: str_nat.simps [of n] is_digit_digit_char)
  qed
qed

lemma dec_digits_append:
  "dec_digits acc (xs @ ys) =
     (case dec_digits acc xs of None \<Rightarrow> None | Some v \<Rightarrow> dec_digits v ys)"
  by (induction xs arbitrary: acc) simp_all

lemma dec_digits_str_nat: "dec_digits 0 (str_nat n) = Some n"
proof (induction n rule: str_nat.induct)
  case (1 n)
  show ?case
  proof (cases "n < 10")
    case True
    then show ?thesis
      by (simp add: str_nat.simps [of n] is_digit_digit_char digit_val_digit_char)
  next
    case False
    with 1 have "dec_digits 0 (str_nat (n div 10)) = Some (n div 10)" by simp
    with False show ?thesis
      by (simp add: str_nat.simps [of n] dec_digits_append is_digit_digit_char
          digit_val_digit_char)
  qed
qed

lemma dec_number_str_nat: "dec_number (str_nat n) = Some n"
  using str_nat_digits [of n] by (simp add: dec_number_def dec_digits_str_nat)

lemma str_nat_not_star: "str_nat n \<noteq> ''*''"
proof
  assume "str_nat n = ''*''"
  with str_nat_digits [of n] have "is_digit CHR ''*''" by simp
  then show False by (simp add: is_digit_def)
qed

lemma field_ok_str_nat: "lo \<le> n \<Longrightarrow> n \<le> hi \<Longrightarrow> field_ok lo hi (str_nat n)"
  by (simp add: field_ok_def parse_field_def str_nat_not_star dec_number_str_nat)

lemma split_acc_word:
  "list_all (\<lambda>c. \<not> is_space c) t \<Longrightarrow> split_acc w (t @ cs) = split_acc (w @ t) cs"
  by (induction t arbitrary: w) simp_all

lemma str_nat_no_space: "list_all (\<lambda>c. \<not> is_space c) (str_nat n)"
  using str_nat_digits [of n] by (auto simp: list_all_iff is_digit_not_space)

lemma split_custom:
  "py_split (str_nat m @ '' '' @ str_nat h @ '' * * *'') =
     [str_nat m, str_nat h, ''*'', ''*'', ''*'']"
proof -
  have sp: "is_space CHR '' ''" and st: "\<not> is_space CHR ''*''"
    by (simp_all add: is_space_def)
  have "split_acc [] (str_nat h @ '' * * *'') = str_nat h # [''*'', ''*'', ''*'']"
    using str_nat_digits [of h]
    by (simp add: split_acc_word [OF str_nat_no_space] sp st)
  moreover have "split_acc [] (str_nat m @ CHR '' '' # str_nat h @ '' * * *'') =
                 str_nat m # split_acc [] (str_nat h @ '' * * *'')"
    using str_nat_digits [of m]
    by (simp add: split_acc_word [OF str_nat_no_space] sp)
  ultimately show ?thesis by (simp add: py_split_def)
qed

lemma py_str_nonneg: "0 \<le> i \<Longrightarrow> py_str i = str_nat (nat i)"
  by (simp add: py_str_def)

lemma custom_well_formed:
  "well_formed_cron (py_str (m mod 60) @ '' '' @ py_str (h mod 24) @ '' * * *'')"
proof -
  have m: "nat (m mod 60) \<le> 59" and h: "nat (h mod 24) \<le> 23" by simp_all
  have star: "field_ok lo hi ''*''" for lo hi
    by (simp add: field_ok_def parse_field_def)
  show ?thesis
    by (simp only: py_str_nonneg pos_mod_sign zero_less_numeral well_formed_cron_def split_custom)
       (simp add: field_ok_str_nat m h star)
qed


lemmas fixed_eval = well_formed_cron_def py_split_def is_space_def field_ok_def parse_field_def
  dec_number_def is_digit_def digit_val_def

lemma get_cron_schedule_cases:
  "get_cron_schedule u = ''Invalid'' \<or> well_formed_cron (get_cron_schedule u)"
proof -
  have fixed: "well_formed_cron ''* * * * *''" "well_formed_cron ''0 * * * *''"
    "well_formed_cron ''0 0 * * *''" "well_formed_cron ''0 0 * * 0''"
    by (simp_all add: fixed_eval)
  show ?thesis
    by (simp add: get_cron_schedule_def Let_def fixed custom_well_formed del: append.simps
        split: sum.splits)
qed

lemma well_formed_five: "well_formed_cron s \<Longrightarrow> length (py_split s) = 5"
  by (auto simp: well_formed_cron_def split: list.splits)

lemma get_cron_schedule_custom:
  assumes "schedule_option u = ''Custom''"
    and "py_int (hour_spinbox u) = Inr h" and "py_int (minute_spinbox u) = Inr m"
  shows "get_cron_schedule u = py_str (m mod 60) @ '' '' @ py_str (h mod 24) @ '' * * *''"
  using assms by (simp add: get_cron_schedule_def del: append.simps)

lemma add_task_stores:
  assumes "App_add_task C u uuid4 default_dir a = Inr (a', Show_success)"
  shows "\<exists>ts. get_tasks (config_manager a') = Inr ts \<and> ts \<noteq> [] \<and>
              id_task (last ts) = uuid4 \<and>
              cron_schedule (last ts) = get_cron_schedule u \<and>
              get_cron_schedule u \<noteq> ''Invalid''"
proof -
  from assms obtain w h where
    wh: "py_int (width_entry u) = Inr w" "py_int (height_entry u) = Inr h"
    by (auto simp: App_add_task_def then_do_def Let_def split: sum.splits)
  from assms wh have ok: "py_strip (url_entry u) \<noteq> []" "get_cron_schedule u \<noteq> ''Invalid''"
    by (auto simp: App_add_task_def then_do_def Let_def split: if_splits)
  define task where "task =
    \<lparr>id_task = uuid4, url = py_strip (url_entry u), cron_schedule = get_cron_schedule u,
     output_path = (if output_path_entry u = [] then default_dir else output_path_entry u),
     width = w, height = h, full_page = full_page_var u, enabled = True\<rparr>"
  from assms wh ok obtain ts0 where
    ts0: "get_tasks (config_manager a) = Inr ts0"
    and a': "a' = schedule_enabled C (ts0 @ [task])
                    (a\<lparr>config_manager := store_tasks (config_manager a) (ts0 @ [task])\<rparr>)"
    by (auto simp: App_add_task_def then_do_def Let_def ConfigManager_add_task_def
        load_scheduled_tasks_def get_tasks_store_tasks task_def split: sum.splits)
  have "get_tasks (config_manager a') = Inr (ts0 @ [task])"
    by (simp add: a' schedule_enabled_config get_tasks_store_tasks)
  with ok show ?thesis
    by (simp add: task_def)
qed

text \<open>
  Claim C10. Every string \<open>get_cron_schedule\<close> returns is the sentinel \<open>Invalid\<close>
  or a well-formed expression: it splits on whitespace into exactly five tokens, each
  \<open>*\<close> or an integer in the range of its field. On the Custom path the tokens are
  the minute modulo 60, the hour modulo 24 and three stars, the two numbers printed in
  decimal and within 0-59 and 0-23. Hence a task that \<open>add_task\<close> has stored carries
  a five-field expression, and the length check of \<open>schedule_task\<close> does not fail
  for it.
\<close>

theorem get_cron_schedule_well_formed:
  "(get_cron_schedule u = ''Invalid'' \<or>
      well_formed_cron (get_cron_schedule u) \<and> length (py_split (get_cron_schedule u)) = 5) \<and>
   (schedule_option u = ''Custom'' \<and> py_int (hour_spinbox u) = Inr h \<and>
    py_int (minute_spinbox u) = Inr m \<longrightarrow>
      py_split (get_cron_schedule u) =
        [py_str (m mod 60), py_str (h mod 24), ''*'', ''*'', ''*''] \<and>
      dec_number (py_str (m mod 60)) = Some (nat (m mod 60)) \<and> nat (m mod 60) \<le> 59 \<and>
      dec_number (py_str (h mod 24)) = Some (nat (h mod 24)) \<and> nat (h mod 24) \<le> 23) \<and>
   (App_add_task C u uuid4 default_dir a = Inr (a', Show_success) \<longrightarrow>
      (\<exists>ts. get_tasks (config_manager a') = Inr ts \<and> ts \<noteq> [] \<and>
            id_task (last ts) = uuid4 \<and>
            well_formed_cron (cron_schedule (last ts)) \<and>
            length (py_split (cron_schedule (last ts))) = 5))"
proof -
  have one: "get_cron_schedule u = ''Invalid'' \<or>
      well_formed_cron (get_cron_schedule u) \<and> length (py_split (get_cron_schedule u)) = 5"
    using get_cron_schedule_cases [of u] well_formed_five by blast
  have two: "py_split (get_cron_schedule u) =
        [py_str (m mod 60), py_str (h mod 24), ''*'', ''*'', ''*''] \<and>
      dec_number (py_str (m mod 60)) = Some (nat (m mod 60)) \<and> nat (m mod 60) \<le> 59 \<and>
      dec_number (py_str (h mod 24)) = Some (nat (h mod 24)) \<and> nat (h mod 24) \<le> 23"
    if "schedule_option u = ''Custom''" "py_int (hour_spinbox u) = Inr h"
      "py_int (minute_spinbox u) = Inr m"
  proof -
    have "py_split (get_cron_schedule u) =
        [py_str (m mod 60), py_str (h mod 24), ''*'', ''*'', ''*'']"
      by (simp only: get_cron_schedule_custom [OF that] py_str_nonneg pos_mod_sign
          zero_less_numeral split_custom)
    moreover have "m mod 60 < 60" and "h mod 24 < 24" by simp_all
    then have "nat (m mod 60) \<le> 59" and "nat (h mod 24) \<le> 23" by linarith+
    ultimately show ?thesis
      by (simp add: py_str_nonneg dec_number_str_nat)
  qed
  have three: "\<exists>ts. get_tasks (config_manager a') = Inr ts \<and> ts \<noteq> [] \<and>
            id_task (last ts) = uuid4 \<and>
            well_formed_cron (cron_schedule (last ts)) \<and>
            length (py_split (cron_schedule (last ts))) = 5"
    if "App_add_task C u uuid4 default_dir a = Inr (a', Show_success)"
  proof -
    from add_task_stores [OF that] obtain ts where
      ts: "get_tasks (config_manager a') = Inr ts" "ts \<noteq> []" "id_task (last ts) = uuid4"
        "cron_schedule (last ts) = get_cron_schedule u" "get_cron_schedule u \<noteq> ''Invalid''"
      by blast
    from ts(5) one have "well_formed_cron (get_cron_schedule u)"
      "length (py_split (get_cron_schedule u)) = 5" by simp_all
    with ts show ?thesis by auto
  qed
  from one two three show ?thesis by blast
qed

lemma str_nat_2: "str_nat 2 = ''2''" and str_nat_29: "str_nat 19 = ''19''"
  by code_simp+

lemma int_hour: "py_int ''-5'' = Inr (- 5)" and int_minute: "py_int ''62'' = Inr 62"
  and int_width: "py_int ''1920'' = Inr 1920" and int_height: "py_int ''1080'' = Inr 1080"
  by (simp_all add: py_int_def int_strip_def is_int_space_def parse_digits_def is_digit_def
      digit_val_def)

lemma cron_form_custom: "get_cron_schedule form_custom = ''2 19 * * *''"
  by (simp add: get_cron_schedule_def form_custom_def int_hour int_minute py_str_def
      str_nat_2 str_nat_29)

lemma strip_url: "py_strip '' http://a.example '' = ''http://a.example''"
  by (simp add: py_strip_def is_space_def)

lemma schedule_u1:
  "schedule_task CronTrigger_spec task_u1
     \<lparr>config_manager = store_tasks empty_config [task_u1], scheduler = Map.empty,
      console = []\<rparr> = app_u1"
  by (simp add: schedule_task_def task_u1_def app_u1_def py_split_def is_space_def
      CronTrigger_spec_def parse_field_def dec_number_def is_digit_def digit_val_def
      numeral_2_eq_2)

lemma add_task_form_custom:
  "App_add_task CronTrigger_spec form_custom ''u1'' ''shots'' (app_with []) =
     Inr (app_u1, Show_success)"
proof -
  have task: "\<lparr>id_task = ''u1'', url = ''http://a.example'', cron_schedule = ''2 19 * * *'',
                output_path = ''shots'', width = 1920, height = 1080, full_page = True,
                enabled = True\<rparr> = task_u1"
    by (simp add: task_u1_def)
  have en: "enabled task_u1" by (simp add: task_u1_def)
  have cfg: "store_tasks (store_tasks empty_config []) [task_u1] =
             store_tasks empty_config [task_u1]"
    by (simp add: store_tasks_def)
  show ?thesis
    unfolding App_add_task_def cron_form_custom
    by (simp add: form_custom_def strip_url int_width int_height then_do_def task
        ConfigManager_add_task_def app_with_def get_tasks_store_tasks cfg
        load_scheduled_tasks_def en schedule_u1)
qed

theorem get_cron_schedule_well_formed_witness:
  "schedule_option form_custom = ''Custom'' \<and>
   py_int (hour_spinbox form_custom) = Inr (- 5) \<and>
   py_int (minute_spinbox form_custom) = Inr 62 \<and>
   get_cron_schedule form_custom = ''2 19 * * *'' \<and>
   py_split (get_cron_schedule form_custom) = [''2'', ''19'', ''*'', ''*'', ''*''] \<and>
   well_formed_cron (get_cron_schedule form_custom) \<and>
   App_add_task CronTrigger_spec form_custom ''u1'' ''shots'' (app_with []) =
     Inr (app_u1, Show_success) \<and>
   get_tasks (config_manager app_u1) = Inr [task_u1] \<and>
   length (py_split (cron_schedule task_u1)) = 5"
  using get_cron_schedule_well_formed [of form_custom "- 5" 62 CronTrigger_spec "''u1''"
      "''shots''" "app_with []" app_u1]
  by (simp add: add_task_form_custom cron_form_custom)
     (simp add: form_custom_def int_hour int_minute py_str_def str_nat_2 str_nat_29
        app_u1_def get_tasks_store_tasks task_u1_def)

section \<open>Malformed expressions\<close>

lemma py_int_cases: "py_int s = Inl ValueError \<or> (\<exists>i. py_int s = Inr i)"
  by (auto simp: py_int_def split: list.splits option.splits)

lemma five_tokens: "length xs = 5 \<Longrightarrow> \<exists>a b c d e. xs = [a, b, c, d, e]"
  by (auto simp: eval_nat_numeral length_Suc_conv)

lemma CronTrigger_spec_rejects:
  "\<not> (field_ok 0 59 mi \<and> field_ok 0 23 h \<and> field_ok 1 31 d \<and> field_ok 1 12 mo \<and>
      field_ok 0 6 dw) \<Longrightarrow>
   CronTrigger_spec mi h d mo dw = Inl TriggerError"
  by (auto simp: CronTrigger_spec_def field_ok_def split: option.splits)

lemma CronTrigger_spec_accepts:
  "field_ok 0 59 mi \<and> field_ok 0 23 h \<and> field_ok 1 31 d \<and> field_ok 1 12 mo \<and>
   field_ok 0 6 dw \<Longrightarrow>
   \<exists>tr. CronTrigger_spec mi h d mo dw = Inr tr"
  by (auto simp: CronTrigger_spec_def field_ok_def split: option.splits)

lemma schedule_task_spec_malformed:
  assumes "\<not> well_formed_cron (cron_schedule task)"
  shows "schedule_task CronTrigger_spec task b =
           b\<lparr>console := console b @
               [Failed_to_schedule (if length (py_split (cron_schedule task)) = 5
                                    then TriggerError else ValueError)]\<rparr>"
proof (cases "length (py_split (cron_schedule task)) = 5")
  case True
  from five_tokens [OF True] obtain mi h d mo dw where
    sp: "py_split (cron_schedule task) = [mi, h, d, mo, dw]" by blast
  with assms have "\<not> (field_ok 0 59 mi \<and> field_ok 0 23 h \<and> field_ok 1 31 d \<and>
      field_ok 1 12 mo \<and> field_ok 0 6 dw)"
    by (simp add: well_formed_cron_def)
  then have "CronTrigger_spec mi h d mo dw = Inl TriggerError"
    by (rule CronTrigger_spec_rejects)
  from schedule_task_trigger_raises [where C = CronTrigger_spec and a = b, OF sp this] True
  show ?thesis by simp
next
  case False
  then show ?thesis by (simp add: schedule_task_wrong_count)
qed

lemma schedule_task_spec_well_formed:
  assumes "well_formed_cron (cron_schedule task)"
  shows "\<exists>tr. schedule_task CronTrigger_spec task b =
           b\<lparr>scheduler := (scheduler b)(id_task task \<mapsto> \<lparr>job_task = task, job_trigger = tr\<rparr>),
             console := console b @ [Scheduled_task (url task) (cron_schedule task)]\<rparr>"
proof -
  from assms have "length (py_split (cron_schedule task)) = 5"
    by (rule well_formed_five)
  from five_tokens [OF this] obtain mi h d mo dw where
    sp: "py_split (cron_schedule task) = [mi, h, d, mo, dw]" by blast
  with assms have "field_ok 0 59 mi \<and> field_ok 0 23 h \<and> field_ok 1 31 d \<and>
      field_ok 1 12 mo \<and> field_ok 0 6 dw"
    by (simp add: well_formed_cron_def)
  from CronTrigger_spec_accepts [OF this] obtain tr where
    "CronTrigger_spec mi h d mo dw = Inr tr" by blast
  from schedule_task_trigger_built [where C = CronTrigger_spec and a = b, OF sp this]
  show ?thesis by blast
qed

lemma add_task_int_raises:
  "py_int (width_entry u) = Inl ValueError \<or> py_int (height_entry u) = Inl ValueError \<Longrightarrow>
   App_add_task C u uuid4 default_dir a = Inl ValueError"
  using py_int_cases [of "width_entry u"]
  by (auto simp: App_add_task_def then_do_def Let_def)

lemma add_task_shows_error:
  assumes "py_int (width_entry u) \<noteq> Inl ValueError" "py_int (height_entry u) \<noteq> Inl ValueError"
    and "py_strip (url_entry u) = [] \<or> get_cron_schedule u = ''Invalid''"
  shows "App_add_task C u uuid4 default_dir a = Inr (a, Show_error)"
proof -
  from assms(1,2) py_int_cases [of "width_entry u"] py_int_cases [of "height_entry u"]
  obtain w h where "py_int (width_entry u) = Inr w" "py_int (height_entry u) = Inr h"
    by auto
  with assms(3) show ?thesis
    by (auto simp: App_add_task_def then_do_def Let_def)
qed

lemma add_task_success_valid:
  assumes "App_add_task C u uuid4 default_dir a = Inr (a', Show_success)"
  shows "well_formed_cron (get_cron_schedule u) \<and> py_strip (url_entry u) \<noteq> []"
proof -
  from assms obtain w h where
    wh: "py_int (width_entry u) = Inr w" "py_int (height_entry u) = Inr h"
    by (auto simp: App_add_task_def then_do_def Let_def split: sum.splits)
  from assms wh have "py_strip (url_entry u) \<noteq> []" "get_cron_schedule u \<noteq> ''Invalid''"
    by (auto simp: App_add_task_def then_do_def Let_def split: if_splits)
  with get_cron_schedule_cases [of u] show ?thesis by simp
qed

text \<open>
  Claim C3. A cron expression is malformed when it is not well formed: the wrong number
  of whitespace-separated fields, a field that is neither \<open>*\<close> nor a base-10 integer,
  or an integer outside the range of its field. For every malformed expression,
  scheduling the task fails and changes neither the stored task list nor the jobs:
  with the wrong number of fields by the check of \<open>schedule_task\<close> itself, whatever
  the trigger constructor, and with five fields because the constructor, which follows
  the specification's grammar, rejects a field. At task creation a malformed
  expression of the form is the sentinel \<open>Invalid\<close>, and \<open>add_task\<close> fails: it shows
  the error and leaves the application as it was, nothing stored and nothing
  scheduled; when the width or the height entry is no integer, \<open>int()\<close> has raised
  before, again with nothing stored. So a task that \<open>add_task\<close> stores has a
  well-formed expression and a URL.
\<close>

theorem malformed_cron_rejected:
  "(\<not> well_formed_cron (cron_schedule task) \<longrightarrow>
      schedule_task CronTrigger_spec task b =
        b\<lparr>console := console b @
            [Failed_to_schedule (if length (py_split (cron_schedule task)) = 5
                                 then TriggerError else ValueError)]\<rparr>) \<and>
   (well_formed_cron (cron_schedule task) \<longrightarrow>
      (\<exists>tr. schedule_task CronTrigger_spec task b =
         b\<lparr>scheduler := (scheduler b)(id_task task \<mapsto> \<lparr>job_task = task, job_trigger = tr\<rparr>),
           console := console b @ [Scheduled_task (url task) (cron_schedule task)]\<rparr>)) \<and>
   (length (py_split (cron_schedule task)) \<noteq> 5 \<longrightarrow>
      schedule_task C task a = a\<lparr>console := console a @ [Failed_to_schedule ValueError]\<rparr>) \<and>
   (\<not> well_formed_cron (get_cron_schedule u) \<longrightarrow>
      get_cron_schedule u = ''Invalid'' \<and>
      (py_int (width_entry u) \<noteq> Inl ValueError \<and> py_int (height_entry u) \<noteq> Inl ValueError \<longrightarrow>
         App_add_task C u uuid4 default_dir a = Inr (a, Show_error)) \<and>
      (py_int (width_entry u) = Inl ValueError \<or> py_int (height_entry u) = Inl ValueError \<longrightarrow>
         App_add_task C u uuid4 default_dir a = Inl ValueError)) \<and>
   (App_add_task C u uuid4 default_dir a = Inr (a', Show_success) \<longrightarrow>
      well_formed_cron (get_cron_schedule u) \<and> py_strip (url_entry u) \<noteq> [])"
proof -
  have inv: "get_cron_schedule u = ''Invalid''" if "\<not> well_formed_cron (get_cron_schedule u)"
    using that get_cron_schedule_cases [of u] by simp
  show ?thesis
    using schedule_task_spec_malformed [of task b] schedule_task_spec_well_formed [of task b]
      schedule_task_wrong_count [of task C a]
      inv add_task_shows_error [of u C uuid4 default_dir a]
      add_task_int_raises [of u C uuid4 default_dir a]
      add_task_success_valid [of C u uuid4 default_dir a a']
    by blast
qed

lemma malformed_examples:
  "\<not> well_formed_cron ''0 61 * * *''" "\<not> well_formed_cron ''*/5 * * * *''"
  "\<not> well_formed_cron ''0 0 * *''" "\<not> well_formed_cron ''Invalid''"
  "length (py_split ''0 61 * * *'') = 5" "length (py_split ''*/5 * * * *'') = 5"
  "length (py_split ''0 0 * *'') \<noteq> 5"
  by (simp_all add: fixed_eval)

lemma cron_form_invalid: "get_cron_schedule form_invalid = ''Invalid''"
  by (simp add: get_cron_schedule_def form_invalid_def py_int_def int_strip_def
      is_int_space_def parse_digits_def is_digit_def digit_val_def)

lemma cron_form_no_height: "get_cron_schedule form_no_height = ''Invalid''"
  by (simp add: get_cron_schedule_def form_no_height_def form_invalid_def py_int_def
      int_strip_def is_int_space_def parse_digits_def is_digit_def digit_val_def)

lemma entries_form_invalid:
  "py_int (width_entry form_invalid) \<noteq> Inl ValueError"
  "py_int (height_entry form_invalid) \<noteq> Inl ValueError"
  "py_int (height_entry form_no_height) = Inl ValueError"
  by (simp_all add: form_invalid_def form_no_height_def int_width int_height)
     (simp add: py_int_def int_strip_def)

theorem malformed_cron_rejected_witness:
  "\<not> well_formed_cron ''0 61 * * *'' \<and>
   schedule_task CronTrigger_spec (task_a\<lparr>cron_schedule := ''0 61 * * *''\<rparr>) (app_with []) =
     (app_with [])\<lparr>console := [Failed_to_schedule TriggerError]\<rparr> \<and>
   \<not> well_formed_cron ''*/5 * * * *'' \<and>
   schedule_task CronTrigger_spec (task_a\<lparr>cron_schedule := ''*/5 * * * *''\<rparr>) (app_with []) =
     (app_with [])\<lparr>console := [Failed_to_schedule TriggerError]\<rparr> \<and>
   \<not> well_formed_cron (cron_schedule task_short) \<and>
   schedule_task CronTrigger_spec task_short (app_with []) =
     (app_with [])\<lparr>console := [Failed_to_schedule ValueError]\<rparr> \<and>
   \<not> well_formed_cron (get_cron_schedule form_invalid) \<and>
   App_add_task CronTrigger_spec form_invalid ''u1'' ''shots'' (app_with []) =
     Inr (app_with [], Show_error) \<and>
   \<not> well_formed_cron (get_cron_schedule form_no_height) \<and>
   App_add_task CronTrigger_spec form_no_height ''u1'' ''shots'' (app_with []) =
     Inl ValueError \<and>
   App_add_task CronTrigger_spec form_custom ''u1'' ''shots'' (app_with []) =
     Inr (app_u1, Show_success) \<and>
   well_formed_cron (get_cron_schedule form_custom)"
proof -
  note spec_part = malformed_cron_rejected [THEN conjunct1, rule_format]
  note count_part =
    malformed_cron_rejected [THEN conjunct2, THEN conjunct2, THEN conjunct1, rule_format]
  note form_part =
    malformed_cron_rejected [THEN conjunct2, THEN conjunct2, THEN conjunct2, THEN conjunct1,
      rule_format]
  note stored_part =
    malformed_cron_rejected [THEN conjunct2, THEN conjunct2, THEN conjunct2, THEN conjunct2,
      rule_format]
  have con: "console (app_with []) = []" by (simp add: app_with_def)
  have short: "cron_schedule task_short = ''0 0 * *''" by (simp add: task_short_def)
  from spec_part [of "task_a\<lparr>cron_schedule := ''0 61 * * *''\<rparr>" "app_with []"]
    malformed_examples con
  have s1: "schedule_task CronTrigger_spec (task_a\<lparr>cron_schedule := ''0 61 * * *''\<rparr>)
              (app_with []) = (app_with [])\<lparr>console := [Failed_to_schedule TriggerError]\<rparr>"
    by simp
  from spec_part [of "task_a\<lparr>cron_schedule := ''*/5 * * * *''\<rparr>" "app_with []"]
    malformed_examples con
  have s2: "schedule_task CronTrigger_spec (task_a\<lparr>cron_schedule := ''*/5 * * * *''\<rparr>)
              (app_with []) = (app_with [])\<lparr>console := [Failed_to_schedule TriggerError]\<rparr>"
    by simp
  from count_part [of task_short CronTrigger_spec "app_with []"] malformed_examples con short
  have s3: "schedule_task CronTrigger_spec task_short (app_with []) =
              (app_with [])\<lparr>console := [Failed_to_schedule ValueError]\<rparr>"
    by simp
  have m4: "\<not> well_formed_cron (get_cron_schedule form_invalid)"
    and m5: "\<not> well_formed_cron (get_cron_schedule form_no_height)"
    by (simp_all add: cron_form_invalid cron_form_no_height malformed_examples)
  from form_part [OF m4, where C = CronTrigger_spec and ?uuid4.0 = "''u1''"
      and default_dir = "''shots''" and a = "app_with []"] entries_form_invalid
  have a4: "App_add_task CronTrigger_spec form_invalid ''u1'' ''shots'' (app_with []) =
              Inr (app_with [], Show_error)"
    by simp
  from form_part [OF m5, where C = CronTrigger_spec and ?uuid4.0 = "''u1''"
      and default_dir = "''shots''" and a = "app_with []"] entries_form_invalid
  have a5: "App_add_task CronTrigger_spec form_no_height ''u1'' ''shots'' (app_with []) =
              Inl ValueError"
    by simp
  from stored_part [OF add_task_form_custom]
  have a6: "well_formed_cron (get_cron_schedule form_custom)"
    by simp
  from malformed_examples short s1 s2 s3 m4 a4 m5 a5 add_task_form_custom a6
  show ?thesis by simp
qed

end
